theory Spec2Isabelle
  imports Main "HOL-Library.AList"
begin

section \<open>Data model\<close>

text \<open>
  The library is TypeScript. Hex strings and identifiers are \<open>string\<close>, a \<open>bigint\<close> is
  \<open>int\<close>, an array index or a count is \<open>nat\<close>, a \<open>Uint8Array\<close> is a list of bytes.
  The JavaScript value \<open>undefined\<close> is \<open>None\<close>; a thrown exception is the left summand
  of a sum type.
\<close>

datatype error =
  InvalidNullifierCount
  | TypeError
  | UndefinedOperand
  | SharedKeyError

text \<open>
  \<open>AddressData\<close> (the argument \<open>address\<close> of the \<open>Note\<close> constructor, and the wallet's
  \<open>addressKeys\<close>), and \<open>class Note\<close> of \<open>src/note/note.ts\<close>: the five fields of the
  object, of which the first two are those of the address.
\<close>

record AddressData =
  masterPublicKey :: int
  viewingPublicKey :: "nat list"

record Note = AddressData +
  token :: string
  random :: string
  "value" :: int

text \<open>
  \<open>type TXO\<close> of the wallet. \<open>spendtxid: string | false\<close> is a \<open>string option\<close> with
  \<open>None\<close> for \<open>false\<close>. The fields \<open>index\<close> and \<open>dummyKey\<close> are read by none of the
  functions below and are left out.
\<close>

record TXO =
  tree :: nat
  position :: nat
  txid :: string
  spendtxid :: "string option"
  "note" :: Note

record TreeBalance =
  balance :: int
  utxos :: "TXO list"

text \<open>
  Reading a JavaScript array at an index: the element, or \<open>undefined\<close> past the end.
\<close>

definition js_index :: "'a list \<Rightarrow> nat \<Rightarrow> 'a option" where
  "js_index xs i = (if i < length xs then Some (xs ! i) else None)"

section \<open>Spending-solution planner (\<open>src/solutions/complex-solutions.ts\<close>)\<close>

text \<open>
  Modelled from the spec: \<open>VALID_NULLIFIER_COUNTS\<close> and \<open>isValidNullifierCount\<close> are
  imported from \<open>./nullifiers\<close>, which is not among the sources. The spec gives the set of
  valid nullifier counts as \<open>V = {1, 2, 8}\<close>, and the test of \<open>nextNullifierTarget\<close>
  (\<open>0 \<rightarrow> 1, 1 \<rightarrow> 2, 2..7 \<rightarrow> 8, 8 \<rightarrow> undefined\<close>) fixes the order of the array.
\<close>

definition VALID_NULLIFIER_COUNTS :: "nat list" where
  "VALID_NULLIFIER_COUNTS = [1, 2, 8]"

definition isValidNullifierCount :: "nat \<Rightarrow> bool" where
  "isValidNullifierCount n = (n \<in> set VALID_NULLIFIER_COUNTS)"

text \<open>
  Modelled from the spec: \<open>calculateTotalSpend\<close> is imported from \<open>./utxos\<close>, which is not
  among the sources; the spec has \<open>s = sum(spending.value)\<close>. The list it receives is a
  JavaScript array that may hold \<open>undefined\<close> (the loop of \<open>findNextSolutionBatch\<close> pushes
  \<open>filteredUTXOs[utxos.length]\<close> unchecked); reading \<open>.note.value\<close> of \<open>undefined\<close> throws
  a \<open>TypeError\<close>.
\<close>

fun calculateTotalSpend :: "TXO option list \<Rightarrow> error + int" where
  "calculateTotalSpend [] = Inr 0"
| "calculateTotalSpend (None # us) = Inl TypeError"
| "calculateTotalSpend (Some u # us) =
     (case calculateTotalSpend us of
        Inl e \<Rightarrow> Inl e
      | Inr s \<Rightarrow> Inr (value (note u) + s))"

text \<open>
  Modelled from the spec: \<open>sortUTXOsBySize\<close> is imported from \<open>./utxos\<close>, which is not
  among the sources. The spec: descending by \<open>value\<close>, ties broken by stable order, a
  zero-value UTXO last. \<open>sort_key\<close> is a stable insertion sort.
\<close>

definition sortUTXOsBySize :: "TXO list \<Rightarrow> TXO list" where
  "sortUTXOsBySize us = sort_key (\<lambda>u. - value (note u)) us"

text \<open>\<open>VALID_NULLIFIER_COUNTS.find((n) => n > utxoCount)\<close>\<close>

definition nextNullifierTarget :: "nat \<Rightarrow> nat option" where
  "nextNullifierTarget utxoCount = find (\<lambda>n. n > utxoCount) VALID_NULLIFIER_COUNTS"

text \<open>
  \<open>shouldAddMoreUTXOsForSolutionBatch\<close>, branch by branch. \<open>!nullifierTarget\<close> holds for
  \<open>undefined\<close> and for \<open>0\<close>.
\<close>

definition shouldAddMoreUTXOsForSolutionBatch ::
  "TXO option list \<Rightarrow> TXO list \<Rightarrow> int \<Rightarrow> error + bool" where
  "shouldAddMoreUTXOsForSolutionBatch spendingUTXOs allUTXOs totalRequired =
     (let nullifierCount = length spendingUTXOs in
      case calculateTotalSpend spendingUTXOs of
        Inl e \<Rightarrow> Inl e
      | Inr totalSpend \<Rightarrow>
          if totalSpend \<ge> totalRequired then Inr (\<not> isValidNullifierCount nullifierCount)
          else
            (case nextNullifierTarget nullifierCount of
               None \<Rightarrow> Inr (\<not> isValidNullifierCount nullifierCount)
             | Some nullifierTarget \<Rightarrow>
                 if nullifierTarget = 0 then Inr (\<not> isValidNullifierCount nullifierCount)
                 else if nullifierTarget > length allUTXOs
                 then Inr (\<not> isValidNullifierCount nullifierCount)
                 else Inr True))"

lemma calculateTotalSpend_defined:
  "calculateTotalSpend us = Inr s \<Longrightarrow> None \<notin> set us"
proof (induction us arbitrary: s)
  case Nil
  then show ?case by simp
next
  case (Cons a us)
  then show ?case
    by (cases a) (auto split: sum.splits)
qed

lemma shouldAdd_defined:
  "shouldAddMoreUTXOsForSolutionBatch us all r = Inr b \<Longrightarrow> None \<notin> set us"
  unfolding shouldAddMoreUTXOsForSolutionBatch_def Let_def
  by (auto split: sum.splits dest: calculateTotalSpend_defined)

text \<open>
  The \<open>while\<close> loop of \<open>findNextSolutionBatch\<close>:
  \<^verbatim>\<open>while (shouldAddMoreUTXOsForSolutionBatch(utxos, filteredUTXOs, totalRequired)) {
    utxos.push(filteredUTXOs[utxos.length]);
  }\<close>
  The pushed element is \<open>undefined\<close> once \<open>utxos.length\<close> is past the end of
  \<open>filteredUTXOs\<close>; the next test then throws. That bounds the loop.
\<close>

function accumulateUTXOs ::
  "TXO list \<Rightarrow> int \<Rightarrow> TXO option list \<Rightarrow> error + TXO option list" where
  "accumulateUTXOs filteredUTXOs totalRequired utxos' =
     (case shouldAddMoreUTXOsForSolutionBatch utxos' filteredUTXOs totalRequired of
        Inl e \<Rightarrow> Inl e
      | Inr again \<Rightarrow>
          if again
          then accumulateUTXOs filteredUTXOs totalRequired
                 (utxos' @ [js_index filteredUTXOs (length utxos')])
          else Inr utxos')"
  by pat_completeness auto
termination
proof (relation "measure (\<lambda>(filteredUTXOs, totalRequired, utxos').
         if None \<in> set utxos' then 0 else Suc (length filteredUTXOs - length utxos'))")
  show "wf (measure (\<lambda>(filteredUTXOs, totalRequired, utxos').
         if None \<in> set utxos' then 0 else Suc (length filteredUTXOs - length utxos')))"
    by simp
next
  fix filteredUTXOs :: "TXO list" and totalRequired :: int
    and utxos' :: "TXO option list" and again :: bool
  assume "shouldAddMoreUTXOsForSolutionBatch utxos' filteredUTXOs totalRequired = Inr again"
  then have "None \<notin> set utxos'"
    by (rule shouldAdd_defined)
  then show "((filteredUTXOs, totalRequired,
                utxos' @ [js_index filteredUTXOs (length utxos')]),
              (filteredUTXOs, totalRequired, utxos'))
        \<in> measure (\<lambda>(filteredUTXOs, totalRequired, utxos').
             if None \<in> set utxos' then 0 else Suc (length filteredUTXOs - length utxos'))"
    by (auto simp: js_index_def)
qed

text \<open>
  \<open>findNextSolutionBatch\<close>: \<open>Inr None\<close> is the return of \<open>undefined\<close>, \<open>Inl\<close> a throw.
\<close>

definition findNextSolutionBatch ::
  "TreeBalance \<Rightarrow> int \<Rightarrow> string list \<Rightarrow> error + TXO option list option" where
  "findNextSolutionBatch treeBalance totalRequired excludedUTXOIDs =
     (let filteredUTXOs = filter (\<lambda>utxo. txid utxo \<notin> set excludedUTXOIDs) (utxos treeBalance) in
      if length filteredUTXOs = 0 then Inr None
      else
        (case accumulateUTXOs (sortUTXOsBySize filteredUTXOs) totalRequired [] of
           Inl e \<Rightarrow> Inl e
         | Inr us \<Rightarrow>
             if \<not> isValidNullifierCount (length us) then Inl InvalidNullifierCount
             else Inr (Some us)))"

subsection \<open>What the loop computes\<close>

declare accumulateUTXOs.simps [simp del]

lemma calculateTotalSpend_Some:
  "calculateTotalSpend (map Some ys) = Inr (sum_list (map (\<lambda>u. value (note u)) ys))"
  by (induction ys) simp_all

lemma nextNullifierTarget_cases:
  "nextNullifierTarget k =
     (if k < 1 then Some 1 else if k < 2 then Some 2 else if k < 8 then Some 8 else None)"
  by (simp add: nextNullifierTarget_def VALID_NULLIFIER_COUNTS_def)

lemma isValidNullifierCount_iff: "isValidNullifierCount n \<longleftrightarrow> n = 1 \<or> n = 2 \<or> n = 8"
  by (auto simp: isValidNullifierCount_def VALID_NULLIFIER_COUNTS_def)

text \<open>The total spend of the first \<open>k\<close> UTXOs of a list.\<close>

definition spendOf :: "TXO list \<Rightarrow> nat \<Rightarrow> int" where
  "spendOf xs k = sum_list (map (\<lambda>u. value (note u)) (take k xs))"

lemma shouldAdd_prefix:
  assumes "k \<le> length xs"
  shows "shouldAddMoreUTXOsForSolutionBatch (map Some (take k xs)) xs r =
     Inr (if spendOf xs k \<ge> r then \<not> isValidNullifierCount k
          else if k < 1 then True
          else if k < 2 then 2 \<le> length xs
          else if k < 8 then 8 \<le> length xs \<or> \<not> isValidNullifierCount k
          else \<not> isValidNullifierCount k)"
  using assms
  by (auto simp add: shouldAddMoreUTXOsForSolutionBatch_def calculateTotalSpend_Some
      nextNullifierTarget_cases spendOf_def isValidNullifierCount_iff)

lemma prefix_push:
  assumes "k < length xs"
  shows "map Some (take k xs) @ [js_index xs k] = map Some (take (Suc k) xs)"
  using assms by (simp add: js_index_def take_Suc_conv_app_nth)

lemma accumulate_step:
  assumes "k < length xs"
      and "shouldAddMoreUTXOsForSolutionBatch (map Some (take k xs)) xs r = Inr True"
  shows "accumulateUTXOs xs r (map Some (take k xs)) = accumulateUTXOs xs r (map Some (take (Suc k) xs))"
  using assms by (subst accumulateUTXOs.simps) (simp add: prefix_push)

lemma accumulate_stop:
  assumes "shouldAddMoreUTXOsForSolutionBatch us xs r = Inr False"
  shows "accumulateUTXOs xs r us = Inr us"
  using assms by (subst accumulateUTXOs.simps) simp

lemma accumulate_from_8:
  assumes "8 \<le> length xs"
  shows "accumulateUTXOs xs r (map Some (take 8 xs)) = Inr (map Some (take 8 xs))"
  using assms by (intro accumulate_stop) (simp add: shouldAdd_prefix isValidNullifierCount_iff)

lemma accumulate_from_mid:
  assumes "8 \<le> length xs" "3 \<le> k" "k \<le> 8"
  shows "accumulateUTXOs xs r (map Some (take k xs)) = Inr (map Some (take 8 xs))"
  using assms
proof (induction "8 - k" arbitrary: k)
  case 0
  then have "k = 8" by simp
  with 0 show ?case by (simp add: accumulate_from_8)
next
  case (Suc d)
  then have k: "k < 8" "k < length xs" by simp_all
  have "shouldAddMoreUTXOsForSolutionBatch (map Some (take k xs)) xs r = Inr True"
    using Suc.prems k by (simp add: shouldAdd_prefix isValidNullifierCount_iff)
  then have "accumulateUTXOs xs r (map Some (take k xs))
             = accumulateUTXOs xs r (map Some (take (Suc k) xs))"
    using k by (intro accumulate_step)
  also have "\<dots> = Inr (map Some (take 8 xs))"
    using Suc.hyps Suc.prems k by (intro Suc.hyps(1)) simp_all
  finally show ?case .
qed

text \<open>
  The number of UTXOs the loop ends with, as a function of the sorted list and the
  amount required.
\<close>

definition batchSize :: "TXO list \<Rightarrow> int \<Rightarrow> nat" where
  "batchSize xs r =
     (if 2 \<le> length xs \<and> spendOf xs 1 < r
      then (if 8 \<le> length xs \<and> spendOf xs 2 < r then 8 else 2)
      else 1)"

lemma accumulate_from_2:
  assumes "2 \<le> length xs"
  shows "accumulateUTXOs xs r (map Some (take 2 xs))
         = Inr (map Some (take (if 8 \<le> length xs \<and> spendOf xs 2 < r then 8 else 2) xs))"
proof (cases "8 \<le> length xs \<and> spendOf xs 2 < r")
  case True
  then have "shouldAddMoreUTXOsForSolutionBatch (map Some (take 2 xs)) xs r = Inr True"
    using assms by (simp add: shouldAdd_prefix isValidNullifierCount_iff)
  then have "accumulateUTXOs xs r (map Some (take 2 xs))
             = accumulateUTXOs xs r (map Some (take (Suc 2) xs))"
    using True by (intro accumulate_step) simp_all
  also have "\<dots> = Inr (map Some (take 8 xs))"
    using True by (intro accumulate_from_mid) simp_all
  finally show ?thesis using True by simp
next
  case False
  then have "shouldAddMoreUTXOsForSolutionBatch (map Some (take 2 xs)) xs r = Inr False"
    using assms by (auto simp add: shouldAdd_prefix isValidNullifierCount_iff)
  with False show ?thesis by (auto simp add: accumulate_stop)
qed

lemma accumulate_from_1:
  assumes "1 \<le> length xs"
  shows "accumulateUTXOs xs r (map Some (take 1 xs)) = Inr (map Some (take (batchSize xs r) xs))"
proof (cases "2 \<le> length xs \<and> spendOf xs 1 < r")
  case True
  then have "shouldAddMoreUTXOsForSolutionBatch (map Some (take 1 xs)) xs r = Inr True"
    using assms by (simp add: shouldAdd_prefix isValidNullifierCount_iff)
  then have "accumulateUTXOs xs r (map Some (take 1 xs))
             = accumulateUTXOs xs r (map Some (take (Suc 1) xs))"
    using True by (intro accumulate_step) simp_all
  also have "\<dots> = Inr (map Some (take (batchSize xs r) xs))"
    using True accumulate_from_2 [of xs r] by (simp add: batchSize_def numeral_2_eq_2)
  finally show ?thesis .
next
  case False
  then have "shouldAddMoreUTXOsForSolutionBatch (map Some (take 1 xs)) xs r = Inr False"
    using assms by (auto simp add: shouldAdd_prefix isValidNullifierCount_iff)
  with False show ?thesis by (auto simp add: accumulate_stop batchSize_def)
qed

lemma accumulate_from_0:
  assumes "1 \<le> length xs"
  shows "accumulateUTXOs xs r [] = Inr (map Some (take (batchSize xs r) xs))"
proof -
  have "shouldAddMoreUTXOsForSolutionBatch (map Some (take 0 xs)) xs r = Inr True"
    by (subst shouldAdd_prefix) (simp_all add: isValidNullifierCount_iff)
  then have "accumulateUTXOs xs r (map Some (take 0 xs))
             = accumulateUTXOs xs r (map Some (take (Suc 0) xs))"
    using assms by (intro accumulate_step) (auto simp add: Suc_le_eq)
  then show ?thesis using accumulate_from_1 [OF assms, of r] by simp
qed

lemma batchSize_bounds:
  assumes "1 \<le> length xs"
  shows "batchSize xs r \<le> min 8 (length xs)" "isValidNullifierCount (batchSize xs r)"
  using assms by (auto simp: batchSize_def isValidNullifierCount_iff)

lemma findNextSolutionBatch_eq:
  "findNextSolutionBatch tb r ex =
     (let filteredUTXOs = filter (\<lambda>utxo. txid utxo \<notin> set ex) (utxos tb);
          sorted = sortUTXOsBySize filteredUTXOs in
      if filteredUTXOs = [] then Inr None
      else Inr (Some (map Some (take (batchSize sorted r) sorted))))"
proof (cases "filter (\<lambda>utxo. txid utxo \<notin> set ex) (utxos tb) = []")
  case True
  then show ?thesis by (simp add: findNextSolutionBatch_def)
next
  case False
  let ?s = "sortUTXOsBySize (filter (\<lambda>utxo. txid utxo \<notin> set ex) (utxos tb))"
  have len: "1 \<le> length ?s"
    using False by (simp add: sortUTXOsBySize_def Suc_le_eq)
  have "min (length ?s) (batchSize ?s r) = batchSize ?s r"
    using batchSize_bounds(1) [OF len, of r] by simp
  then show ?thesis
    using False accumulate_from_0 [OF len, of r] batchSize_bounds(2) [OF len, of r]
    by (simp add: findNextSolutionBatch_def Let_def)
qed

subsection \<open>The planner's test data\<close>

text \<open>
  \<open>createMockTXO\<close> and \<open>treeBalance1\<close> of the planner's test file (the first
  \<open>describe\<close> block): six UTXOs \<open>a..f\<close> with values 30, 40, 50, 10, 20, 0. The test
  builds the object as \<open>{ txid, note }\<close>; the other fields take fixed values here.
\<close>

definition createMockTXO :: "string \<Rightarrow> int \<Rightarrow> TXO" where
  "createMockTXO txid' v =
     \<lparr>tree = 0, position = 0, txid = txid', spendtxid = None,
      note = \<lparr>masterPublicKey = 0, viewingPublicKey = [], token = ''abc'',
               random = [], value = v\<rparr>\<rparr>"

definition treeBalance1 :: TreeBalance where
  "treeBalance1 =
     \<lparr>balance = 150,
      utxos = [createMockTXO ''a'' 30, createMockTXO ''b'' 40, createMockTXO ''c'' 50,
               createMockTXO ''d'' 10, createMockTXO ''e'' 20, createMockTXO ''f'' 0]\<rparr>"

definition mockTXOs :: "int list \<Rightarrow> TXO list" where
  "mockTXOs vs = map (createMockTXO ''u'') vs"

lemmas planner_defs =
  findNextSolutionBatch_def sortUTXOsBySize_def shouldAddMoreUTXOsForSolutionBatch_def
  isValidNullifierCount_def VALID_NULLIFIER_COUNTS_def nextNullifierTarget_def js_index_def
  treeBalance1_def createMockTXO_def mockTXOs_def accumulateUTXOs.simps

subsection \<open>Claims about the planner\<close>

text \<open>
  C2. Whenever \<open>findNextSolutionBatch\<close> returns a batch (and not \<open>undefined\<close>, and
  without throwing), the number of UTXOs in the batch is 1, 2 or 8.
\<close>

theorem findNextSolutionBatch_cardinality:
  assumes "findNextSolutionBatch treeBalance totalRequired excludedUTXOIDs = Inr (Some u)"
  shows "length u \<in> {1, 2, 8}"
proof -
  from assms have "isValidNullifierCount (length u)"
    by (auto simp add: findNextSolutionBatch_def Let_def split: if_splits sum.splits)
  then show ?thesis
    by (auto simp add: isValidNullifierCount_iff)
qed

theorem findNextSolutionBatch_cardinality_witness:
  "findNextSolutionBatch treeBalance1 180 []
     = Inr (Some [Some (createMockTXO ''c'' 50), Some (createMockTXO ''b'' 40)])
   \<and> length [Some (createMockTXO ''c'' 50), Some (createMockTXO ''b'' 40)] \<in> {1, 2, 8}"
proof -
  have h: "findNextSolutionBatch treeBalance1 180 []
     = Inr (Some [Some (createMockTXO ''c'' 50), Some (createMockTXO ''b'' 40)])"
    by (simp add: planner_defs)
  show ?thesis
    using h findNextSolutionBatch_cardinality [OF h] by simp
qed

text \<open>
  C4. The decision table of \<open>shouldAddMoreUTXOsForSolutionBatch\<close> with
  \<open>totalRequired = 1000\<close>, for every list \<open>spending\<close> of \<open>k\<close> UTXOs and every list
  \<open>allUTXOs\<close> of \<open>N\<close> UTXOs, by \<open>k\<close>, \<open>N\<close> and the sum of the spending values:
  \<open>(1, 5, 1000) \<rightarrow> false\<close>, \<open>(3, 5, 1001) \<rightarrow> true\<close>, \<open>(3, 8, 999) \<rightarrow> true\<close>,
  \<open>(3, 5, 999) \<rightarrow> true\<close>, \<open>(8, 10, 999) \<rightarrow> false\<close>. In the fourth row the next target 8
  is above \<open>N = 5\<close>, and the branch commented \<open>Not reachable. Keep adding nullifiers until
  the count is valid.\<close> returns \<open>!isValidNullifierCount(3)\<close>, which is \<open>true\<close>.
\<close>

theorem shouldAddMoreUTXOsForSolutionBatch_rows:
  "(length spending = 1 \<and> length allUTXOs = 5
      \<and> sum_list (map (\<lambda>u. value (note u)) spending) = 1000
      \<longrightarrow> shouldAddMoreUTXOsForSolutionBatch (map Some spending) allUTXOs 1000 = Inr False)
   \<and> (length spending = 3 \<and> length allUTXOs = 5
      \<and> sum_list (map (\<lambda>u. value (note u)) spending) = 1001
      \<longrightarrow> shouldAddMoreUTXOsForSolutionBatch (map Some spending) allUTXOs 1000 = Inr True)
   \<and> (length spending = 3 \<and> length allUTXOs = 8
      \<and> sum_list (map (\<lambda>u. value (note u)) spending) = 999
      \<longrightarrow> shouldAddMoreUTXOsForSolutionBatch (map Some spending) allUTXOs 1000 = Inr True)
   \<and> (length spending = 3 \<and> length allUTXOs = 5
      \<and> sum_list (map (\<lambda>u. value (note u)) spending) = 999
      \<longrightarrow> shouldAddMoreUTXOsForSolutionBatch (map Some spending) allUTXOs 1000 = Inr True)
   \<and> (length spending = 8 \<and> length allUTXOs = 10
      \<and> sum_list (map (\<lambda>u. value (note u)) spending) = 999
      \<longrightarrow> shouldAddMoreUTXOsForSolutionBatch (map Some spending) allUTXOs 1000 = Inr False)"
  by (simp add: shouldAddMoreUTXOsForSolutionBatch_def calculateTotalSpend_Some
      nextNullifierTarget_cases isValidNullifierCount_iff)

theorem shouldAddMoreUTXOsForSolutionBatch_rows_witness:
  "shouldAddMoreUTXOsForSolutionBatch
       (map Some (mockTXOs [1000])) (mockTXOs [1000, 4, 3, 2, 1]) 1000 = Inr False
   \<and> shouldAddMoreUTXOsForSolutionBatch
       (map Some (mockTXOs [500, 400, 101])) (mockTXOs [500, 400, 101, 2, 1]) 1000 = Inr True
   \<and> shouldAddMoreUTXOsForSolutionBatch
       (map Some (mockTXOs [500, 400, 99])) (mockTXOs [500, 400, 99, 5, 4, 3, 2, 1]) 1000
       = Inr True
   \<and> shouldAddMoreUTXOsForSolutionBatch
       (map Some (mockTXOs [500, 400, 99])) (mockTXOs [500, 400, 99, 2, 1]) 1000 = Inr True
   \<and> shouldAddMoreUTXOsForSolutionBatch
       (map Some (mockTXOs [500, 400, 93, 2, 1, 1, 1, 1]))
       (mockTXOs [500, 400, 93, 2, 1, 1, 1, 1, 1, 1]) 1000 = Inr False"
proof -
  have r1: "shouldAddMoreUTXOsForSolutionBatch
       (map Some (mockTXOs [1000])) (mockTXOs [1000, 4, 3, 2, 1]) 1000 = Inr False"
    using shouldAddMoreUTXOsForSolutionBatch_rows
      [of "mockTXOs [1000]" "mockTXOs [1000, 4, 3, 2, 1]"]
    by (simp add: mockTXOs_def createMockTXO_def)
  have r2: "shouldAddMoreUTXOsForSolutionBatch
       (map Some (mockTXOs [500, 400, 101])) (mockTXOs [500, 400, 101, 2, 1]) 1000 = Inr True"
    using shouldAddMoreUTXOsForSolutionBatch_rows
      [of "mockTXOs [500, 400, 101]" "mockTXOs [500, 400, 101, 2, 1]"]
    by (simp add: mockTXOs_def createMockTXO_def)
  have r3: "shouldAddMoreUTXOsForSolutionBatch
       (map Some (mockTXOs [500, 400, 99])) (mockTXOs [500, 400, 99, 5, 4, 3, 2, 1]) 1000
       = Inr True"
    using shouldAddMoreUTXOsForSolutionBatch_rows
      [of "mockTXOs [500, 400, 99]" "mockTXOs [500, 400, 99, 5, 4, 3, 2, 1]"]
    by (simp add: mockTXOs_def createMockTXO_def)
  have r4: "shouldAddMoreUTXOsForSolutionBatch
       (map Some (mockTXOs [500, 400, 99])) (mockTXOs [500, 400, 99, 2, 1]) 1000 = Inr True"
    using shouldAddMoreUTXOsForSolutionBatch_rows
      [of "mockTXOs [500, 400, 99]" "mockTXOs [500, 400, 99, 2, 1]"]
    by (simp add: mockTXOs_def createMockTXO_def)
  have r5: "shouldAddMoreUTXOsForSolutionBatch
       (map Some (mockTXOs [500, 400, 93, 2, 1, 1, 1, 1]))
       (mockTXOs [500, 400, 93, 2, 1, 1, 1, 1, 1, 1]) 1000 = Inr False"
    using shouldAddMoreUTXOsForSolutionBatch_rows
      [of "mockTXOs [500, 400, 93, 2, 1, 1, 1, 1]" "mockTXOs [500, 400, 93, 2, 1, 1, 1, 1, 1, 1]"]
    by (simp add: mockTXOs_def createMockTXO_def)
  from r1 r2 r3 r4 r5 show ?thesis
    by (intro conjI)
qed

text \<open>
  C4, as stated, fails in its fourth row: on three UTXOs of values 500, 400 and 99 out of
  five, with 1000 required, the function does not return \<open>false\<close>.
\<close>

theorem shouldAddMoreUTXOsForSolutionBatch_row4_counterexample:
  "shouldAddMoreUTXOsForSolutionBatch
       (map Some (mockTXOs [500, 400, 99])) (mockTXOs [500, 400, 99, 2, 1]) 1000 \<noteq> Inr False"
  by (simp add: shouldAddMoreUTXOsForSolutionBatch_def isValidNullifierCount_def
      VALID_NULLIFIER_COUNTS_def nextNullifierTarget_def createMockTXO_def mockTXOs_def)

text \<open>
  C5. With \<open>a..e\<close> excluded only the zero-value UTXO \<open>f\<close> is left, and for every
  required amount \<open>findNextSolutionBatch\<close> returns the batch \<open>[f]\<close>: a zero-value TXO as
  the sole entry. The claim, and the test of the test file, have \<open>undefined\<close> there.
\<close>

theorem findNextSolutionBatch_zero_value_sole_entry:
  "findNextSolutionBatch treeBalance1 totalRequired [''a'', ''b'', ''c'', ''d'', ''e'']
     = Inr (Some [Some (createMockTXO ''f'' 0)])"
  by (simp add: findNextSolutionBatch_eq batchSize_def sortUTXOsBySize_def treeBalance1_def
      createMockTXO_def)

text \<open>
  C10. \<open>findNextSolutionBatch\<close> never throws. With every UTXO excluded it returns
  \<open>undefined\<close>; otherwise it returns the first \<open>n\<close> UTXOs of the sorted list for some
  \<open>n \<le> min(8, N)\<close>, \<open>N\<close> the number of UTXOs not excluded. Every iteration of the loop
  pushes one element onto the empty list, so \<open>n\<close> is the number of iterations; all \<open>n\<close>
  elements are elements of the list (none is the \<open>undefined\<close> of a read past the end), and
  neither \<open>Invalid nullifier count\<close> nor a \<open>TypeError\<close> is the result.
\<close>

theorem findNextSolutionBatch_never_throws:
  "\<exists>n. n \<le> min 8 (length (filter (\<lambda>utxo. txid utxo \<notin> set excludedUTXOIDs) (utxos treeBalance)))
     \<and> findNextSolutionBatch treeBalance totalRequired excludedUTXOIDs
       = (if filter (\<lambda>utxo. txid utxo \<notin> set excludedUTXOIDs) (utxos treeBalance) = []
          then Inr None
          else Inr (Some (map Some (take n (sortUTXOsBySize
                 (filter (\<lambda>utxo. txid utxo \<notin> set excludedUTXOIDs) (utxos treeBalance)))))))"
proof (cases "filter (\<lambda>utxo. txid utxo \<notin> set excludedUTXOIDs) (utxos treeBalance) = []")
  case True
  then show ?thesis
    by (simp add: findNextSolutionBatch_eq)
next
  case False
  let ?f = "filter (\<lambda>utxo. txid utxo \<notin> set excludedUTXOIDs) (utxos treeBalance)"
  have len: "1 \<le> length (sortUTXOsBySize ?f)"
    using False by (simp add: sortUTXOsBySize_def Suc_le_eq)
  have "batchSize (sortUTXOsBySize ?f) totalRequired \<le> min 8 (length ?f)"
    using batchSize_bounds(1) [OF len, of totalRequired] by (simp add: sortUTXOsBySize_def)
  then show ?thesis
    using False by (intro exI [of _ "batchSize (sortUTXOsBySize ?f) totalRequired"])
      (simp add: findNextSolutionBatch_eq Let_def)
qed

section \<open>Commitment Merkle tree (\<open>src/merkletree/index.ts\<close>)\<close>

text \<open>
  A sparse JavaScript array is a list of options, a hole being \<open>None\<close>: reading past the
  end gives \<open>undefined\<close>, writing past the end extends the array with holes, and
  \<open>.length\<close> is the length of the list.
\<close>

definition js_get :: "'x option list \<Rightarrow> nat \<Rightarrow> 'x option" where
  "js_get xs i = (if i < length xs then xs ! i else None)"

definition js_set :: "'x option list \<Rightarrow> nat \<Rightarrow> 'x \<Rightarrow> 'x option list" where
  "js_set xs i v =
     (if i < length xs then xs[i := Some v]
      else xs @ replicate (i - length xs) None @ [Some v])"

text \<open>\<open>a || b\<close> on a value that is a non-empty string, an array, or \<open>undefined\<close>.\<close>

definition js_or :: "'x option \<Rightarrow> 'x option \<Rightarrow> 'x option" where
  "js_or a b = (case a of Some v \<Rightarrow> Some v | None \<Rightarrow> b)"

datatype TreePurpose = erc20 | erc721

fun depths :: "TreePurpose \<Rightarrow> nat" where
  "depths erc20 = 16"
| "depths erc721 = 8"

text \<open>
  The \<open>MerkleTree\<close> object. Node values are hex strings of field elements (the result of
  \<open>hexlify\<close> on a commitment, or of Poseidon); they are the type \<open>'a\<close>, and every node value
  is truthy, as a non-empty string is. The database is the part of the key-value store under
  this tree controller's prefix \<open>(chainID, merkletree-purpose)\<close>: \<open>getNodeDBPath\<close> pads
  \<open>tree\<close>, \<open>level\<close> and \<open>index\<close> to fixed width, so a path is the triple
  \<open>(tree, level, index)\<close>, and the store is an association list with one entry per key.
  \<open>writeQueue\<close> and \<open>queueLock\<close> belong to \<open>queueLeaves\<close> and \<open>updateTrees\<close> and are left
  out.
\<close>

record 'a MerkleTree =
  chainID :: nat
  purpose :: TreePurpose
  depth :: nat
  zeroValues :: "'a list"
  db :: "((nat \<times> nat \<times> nat) \<times> 'a) list"
  treeLengthCache :: "nat option list"
  writeCache :: "'a option list option list option list"

text \<open>
  \<open>hashLeftRight(left, right) = utils.hash.poseidon([left, right])\<close>. Modelled from the
  spec: \<open>utils.hash.poseidon\<close> is not among the sources; the spec has
  \<open>poseidon(field[]) \<rightarrow> field\<close>, a pure function, which is the parameter \<open>H\<close> on two node
  values. \<open>undefined\<close> is no field element: a call with an \<open>undefined\<close> operand is the
  error \<open>UndefinedOperand\<close>, whatever the absent function does with it.
\<close>

definition hashLeftRight ::
  "('a \<Rightarrow> 'a \<Rightarrow> 'a) \<Rightarrow> 'a option \<Rightarrow> 'a option \<Rightarrow> error + 'a" where
  "hashLeftRight H left right =
     (case left of
        None \<Rightarrow> Inl UndefinedOperand
      | Some l \<Rightarrow> (case right of None \<Rightarrow> Inl UndefinedOperand | Some r \<Rightarrow> Inr (H l r)))"

text \<open>
  The constructor's loop
  \<^verbatim>\<open>this.zeroValues[0] = MERKLE_ZERO_VALUE;
  for (let level = 1; level <= this.depth; level += 1)
    this.zeroValues[level] = hashLeftRight(this.zeroValues[level - 1], this.zeroValues[level - 1]);\<close>
  by recursion on the number of levels done; \<open>zeroValues[level - 1]\<close> was written by the
  step before, so both operands are defined and the hash is \<open>H\<close>. \<open>MERKLE_ZERO_VALUE\<close> is
  \<open>keccak256("Railgun") mod SNARK_PRIME\<close> in hex; keccak256 and the prime are not among the
  sources, and the value is the parameter \<open>z0\<close>.
\<close>

primrec zeroValuesLoop :: "('a \<Rightarrow> 'a \<Rightarrow> 'a) \<Rightarrow> 'a \<Rightarrow> nat \<Rightarrow> 'a list" where
  "zeroValuesLoop H z0 0 = [z0]"
| "zeroValuesLoop H z0 (Suc level) =
     (let zs = zeroValuesLoop H z0 level in zs @ [H (zs ! level) (zs ! level)])"

text \<open>
  \<open>new MerkleTree(db, chainID, purpose, depth = depths[purpose])\<close>: the optional argument
  is an option.
\<close>

definition newMerkleTree ::
  "('a \<Rightarrow> 'a \<Rightarrow> 'a) \<Rightarrow> 'a \<Rightarrow> ((nat \<times> nat \<times> nat) \<times> 'a) list \<Rightarrow> nat \<Rightarrow> TreePurpose \<Rightarrow> nat option
     \<Rightarrow> 'a MerkleTree" where
  "newMerkleTree H z0 db' chainID' purpose' depthArg =
     (let d = (case depthArg of None \<Rightarrow> depths purpose' | Some d' \<Rightarrow> d') in
      \<lparr>chainID = chainID', purpose = purpose', depth = d,
       zeroValues = zeroValuesLoop H z0 d, db = db',
       treeLengthCache = [], writeCache = []\<rparr>)"

text \<open>
  \<open>getNode\<close>: \<open>db.get\<close> throws on a missing key, and the \<open>catch\<close> returns
  \<open>this.zeroValues[level]\<close>, which is \<open>undefined\<close> for a level above the depth.
\<close>

definition getNode :: "'a MerkleTree \<Rightarrow> nat \<Rightarrow> nat \<Rightarrow> nat \<Rightarrow> 'a option" where
  "getNode s tr level index =
     (case map_of (db s) (tr, level, index) of
        Some v \<Rightarrow> Some v
      | None \<Rightarrow> js_index (zeroValues s) level)"

definition getRoot :: "'a MerkleTree \<Rightarrow> nat \<Rightarrow> 'a option" where
  "getRoot s tr = getNode s tr (depth s) 0"

text \<open>
  Modelled from the spec: \<open>db.countNamespace(prefix)\<close> belongs to the database class,
  which is not among the sources; the spec lists \<open>countNamespace(prefix[])\<close> beside
  \<open>streamNamespace(prefix[]) \<rightarrow> stream<key[]>\<close>: the number of keys under the prefix.
  \<open>getTreeDBPrefix(tree)\<close> is \<open>[chainID, merkletree-purpose, tree]\<close>, so the keys under it
  are the paths \<open>(tree, level, index)\<close> of that tree, of every level.
\<close>

definition countNamespace :: "((nat \<times> nat \<times> nat) \<times> 'a) list \<Rightarrow> nat \<Rightarrow> nat" where
  "countNamespace d tr = length (filter (\<lambda>(k, v). fst k = tr) d)"

text \<open>
  \<open>getTreeLength\<close>:
  \<^verbatim>\<open>this.treeLengthCache[tree] = this.treeLengthCache[tree]
    || await this.db.countNamespace(this.getTreeDBPrefix(tree));
  return this.treeLengthCache[tree];\<close>
  A cached \<open>0\<close> is falsy, like \<open>undefined\<close>.
\<close>

definition getTreeLength :: "'a MerkleTree \<Rightarrow> nat \<Rightarrow> nat \<times> 'a MerkleTree" where
  "getTreeLength s tr =
     (let n = (case js_get (treeLengthCache s) tr of
                 None \<Rightarrow> countNamespace (db s) tr
               | Some c \<Rightarrow> if c = 0 then countNamespace (db s) tr else c) in
      (n, s\<lparr>treeLengthCache := js_set (treeLengthCache s) tr n\<rparr>))"

text \<open>
  The write cache \<open>writeCache[tree][level][index]\<close>. Indexing \<open>undefined\<close> throws a
  \<open>TypeError\<close>.
\<close>

definition cacheGet ::
  "'a option list option list option list \<Rightarrow> nat \<Rightarrow> nat \<Rightarrow> nat \<Rightarrow> error + 'a option" where
  "cacheGet wc tr level index =
     (case js_get wc tr of
        None \<Rightarrow> Inl TypeError
      | Some levels \<Rightarrow>
          (case js_get levels level of
             None \<Rightarrow> Inl TypeError
           | Some nodes \<Rightarrow> Inr (js_get nodes index)))"

definition cacheSet ::
  "'a option list option list option list \<Rightarrow> nat \<Rightarrow> nat \<Rightarrow> nat \<Rightarrow> 'a
     \<Rightarrow> error + 'a option list option list option list" where
  "cacheSet wc tr level index v =
     (case js_get wc tr of
        None \<Rightarrow> Inl TypeError
      | Some levels \<Rightarrow>
          (case js_get levels level of
             None \<Rightarrow> Inl TypeError
           | Some nodes \<Rightarrow> Inr (js_set wc tr (js_set levels level (js_set nodes index v)))))"

text \<open>
  The \<open>forEach\<close> over the leaves:
  \<^verbatim>\<open>this.writeCache[tree] = this.writeCache[tree] || [];
  this.writeCache[tree][level] = this.writeCache[tree][level] || [];
  this.writeCache[tree][level][index] = leaf;
  index += 1;\<close>
  with \<open>level = 0\<close>.
\<close>

fun writeLeaves ::
  "'a option list option list option list \<Rightarrow> nat \<Rightarrow> nat \<Rightarrow> 'a list
     \<Rightarrow> 'a option list option list option list" where
  "writeLeaves wc tr index [] = wc"
| "writeLeaves wc tr index (leaf # rest) =
     (let levels = (case js_get wc tr of None \<Rightarrow> [] | Some ls \<Rightarrow> ls);
          nodes = (case js_get levels 0 of None \<Rightarrow> [] | Some ns \<Rightarrow> ns)
      in writeLeaves (js_set wc tr (js_set levels 0 (js_set nodes index leaf)))
           tr (index + 1) rest)"

text \<open>
  \<open>this.writeCache[tree][level + 1] = this.writeCache[tree][level + 1] || []\<close>
\<close>

definition ensureLevel ::
  "'a option list option list option list \<Rightarrow> nat \<Rightarrow> nat
     \<Rightarrow> error + 'a option list option list option list" where
  "ensureLevel wc tr level =
     (case js_get wc tr of
        None \<Rightarrow> Inl TypeError
      | Some levels \<Rightarrow>
          Inr (js_set wc tr
                 (js_set levels level (case js_get levels level of None \<Rightarrow> [] | Some ns \<Rightarrow> ns))))"

text \<open>
  The body of the pair loop. For an even \<open>index\<close> both children fall back to \<open>getNode\<close>;
  for an odd \<open>index\<close> the left child falls back to \<open>getNode\<close> and the right child is
  \<open>this.writeCache[tree][level][index]\<close> as it is.
\<close>

definition updateParent ::
  "('a \<Rightarrow> 'a \<Rightarrow> 'a) \<Rightarrow> 'a MerkleTree \<Rightarrow> 'a option list option list option list
     \<Rightarrow> nat \<Rightarrow> nat \<Rightarrow> nat \<Rightarrow> error + 'a option list option list option list" where
  "updateParent H s wc tr level index =
     (if index mod 2 = 0 then
        (case cacheGet wc tr level index of
           Inl e \<Rightarrow> Inl e
         | Inr l \<Rightarrow>
             (case cacheGet wc tr level (index + 1) of
                Inl e \<Rightarrow> Inl e
              | Inr r \<Rightarrow>
                  (case hashLeftRight H (js_or l (getNode s tr level index))
                          (js_or r (getNode s tr level (index + 1))) of
                     Inl e \<Rightarrow> Inl e
                   | Inr h \<Rightarrow> cacheSet wc tr (level + 1) (index div 2) h)))
      else
        (case cacheGet wc tr level (index - 1) of
           Inl e \<Rightarrow> Inl e
         | Inr l \<Rightarrow>
             (case cacheGet wc tr level index of
                Inl e \<Rightarrow> Inl e
              | Inr r \<Rightarrow>
                  (case hashLeftRight H (js_or l (getNode s tr level (index - 1))) r of
                     Inl e \<Rightarrow> Inl e
                   | Inr h \<Rightarrow> cacheSet wc tr (level + 1) (index div 2) h))))"

text \<open>\<open>for (index; index <= endIndex; index += 2)\<close>\<close>

function pairLoop ::
  "('a \<Rightarrow> 'a \<Rightarrow> 'a) \<Rightarrow> 'a MerkleTree \<Rightarrow> 'a option list option list option list
     \<Rightarrow> nat \<Rightarrow> nat \<Rightarrow> nat \<Rightarrow> nat \<Rightarrow> error + 'a option list option list option list" where
  "pairLoop H s wc tr level index endIndex =
     (if index \<le> endIndex then
        (case updateParent H s wc tr level index of
           Inl e \<Rightarrow> Inl e
         | Inr wc' \<Rightarrow> pairLoop H s wc' tr level (index + 2) endIndex)
      else Inr wc)"
  by pat_completeness auto
termination
  by (relation "measure (\<lambda>(H, s, wc, tr, level, index, endIndex). Suc endIndex - index)") auto

text \<open>
  \<open>while (level < this.depth)\<close>: the level's array is made, the pairs are hashed, and
  \<open>nextLevelStartIndex\<close> and \<open>endIndex\<close> are shifted right by one.
\<close>

function levelLoop ::
  "('a \<Rightarrow> 'a \<Rightarrow> 'a) \<Rightarrow> 'a MerkleTree \<Rightarrow> 'a option list option list option list
     \<Rightarrow> nat \<Rightarrow> nat \<Rightarrow> nat \<Rightarrow> nat \<Rightarrow> error + 'a option list option list option list" where
  "levelLoop H s wc tr level nextLevelStartIndex endIndex =
     (if level < depth s then
        (case ensureLevel wc tr (level + 1) of
           Inl e \<Rightarrow> Inl e
         | Inr wc1 \<Rightarrow>
             (case pairLoop H s wc1 tr level nextLevelStartIndex endIndex of
                Inl e \<Rightarrow> Inl e
              | Inr wc2 \<Rightarrow>
                  levelLoop H s wc2 tr (level + 1) (nextLevelStartIndex div 2) (endIndex div 2)))
      else Inr wc)"
  by pat_completeness auto
termination
  by (relation "measure (\<lambda>(H, s, wc, tr, level, nextLevelStartIndex, endIndex). depth s - level)")
    auto

text \<open>
  \<open>writeTreeCache\<close>: every node of the write cache is put under its path in one batch
  (\<open>forEach\<close> skips holes), the length cache takes \<open>this.writeCache[tree][0].length\<close>, and
  the write cache of the tree is cleared.
\<close>

definition cacheEntries ::
  "nat \<Rightarrow> 'a option list option list \<Rightarrow> ((nat \<times> nat \<times> nat) \<times> 'a) list" where
  "cacheEntries tr levels =
     concat (map (\<lambda>(level, levelElement).
        case levelElement of
          None \<Rightarrow> []
        | Some nodes \<Rightarrow>
            concat (map (\<lambda>(index, node).
              case node of None \<Rightarrow> [] | Some v \<Rightarrow> [((tr, level, index), v)])
              (enumerate 0 nodes)))
        (enumerate 0 levels))"

definition dbBatch ::
  "((nat \<times> nat \<times> nat) \<times> 'a) list \<Rightarrow> ((nat \<times> nat \<times> nat) \<times> 'a) list
     \<Rightarrow> ((nat \<times> nat \<times> nat) \<times> 'a) list" where
  "dbBatch d writeBatch = foldl (\<lambda>d' (k, v). AList.update k v d') d writeBatch"

definition writeTreeCache :: "'a MerkleTree \<Rightarrow> nat \<Rightarrow> error + 'a MerkleTree" where
  "writeTreeCache s tr =
     (case js_get (writeCache s) tr of
        None \<Rightarrow> Inl TypeError
      | Some levels \<Rightarrow>
          (case js_get levels 0 of
             None \<Rightarrow> Inl TypeError
           | Some nodes0 \<Rightarrow>
               Inr (s\<lparr>db := dbBatch (db s) (cacheEntries tr levels),
                       treeLengthCache := js_set (treeLengthCache s) tr (length nodes0),
                       writeCache := js_set (writeCache s) tr []\<rparr>)))"

text \<open>
  \<open>insertLeaves(tree, leaves, startIndex)\<close>. \<open>utils.bytes.hexlify\<close> is not among the
  sources and is the parameter \<open>hexlifyLeaf\<close>, with its second parameter the prefix flag
  (as in \<open>hexlify(x, true)\<close> of the note). In \<open>leaves.map(utils.bytes.hexlify)\<close> the array's
  \<open>map\<close> calls it with the element and the index: the flag is the index, falsy for the
  first leaf of the batch and truthy for the others. The loops change \<open>this.writeCache\<close>
  only; the object takes the new write cache before \<open>writeTreeCache\<close>.
\<close>

definition insertLeaves ::
  "('a \<Rightarrow> bool \<Rightarrow> 'a) \<Rightarrow> ('a \<Rightarrow> 'a \<Rightarrow> 'a) \<Rightarrow> 'a MerkleTree \<Rightarrow> nat \<Rightarrow> 'a list \<Rightarrow> nat
     \<Rightarrow> error + 'a MerkleTree" where
  "insertLeaves hexlifyLeaf H s tr leaves startIndex =
     (let writeArray = map (\<lambda>(i, leaf). hexlifyLeaf leaf (i \<noteq> 0)) (enumerate 0 leaves);
          endIndex = startIndex + length writeArray;
          wc0 = writeLeaves (writeCache s) tr startIndex writeArray
      in case levelLoop H s wc0 tr 0 startIndex endIndex of
           Inl e \<Rightarrow> Inl e
         | Inr wc1 \<Rightarrow> writeTreeCache (s\<lparr>writeCache := wc1\<rparr>) tr)"

declare pairLoop.simps [simp del]

declare levelLoop.simps [simp del]

subsection \<open>Zero values\<close>

text \<open>
  The zero value of a level in closed form: the \<open>level\<close>-fold self-hash
  \<open>x \<mapsto> Poseidon(x, x)\<close> of \<open>MERKLE_ZERO_VALUE\<close>.
\<close>

definition zeroValue :: "('a \<Rightarrow> 'a \<Rightarrow> 'a) \<Rightarrow> 'a \<Rightarrow> nat \<Rightarrow> 'a" where
  "zeroValue H z0 level = ((\<lambda>x. H x x) ^^ level) z0"

lemma zeroValuesLoop_length: "length (zeroValuesLoop H z0 d) = Suc d"
  by (induction d) (simp_all add: Let_def)

lemma zeroValuesLoop_nth:
  "level \<le> d \<Longrightarrow> zeroValuesLoop H z0 d ! level = zeroValue H z0 level"
proof (induction d arbitrary: level)
  case 0
  then show ?case by (simp add: zeroValue_def)
next
  case (Suc d)
  show ?case
  proof (cases "level \<le> d")
    case True
    then show ?thesis
      using Suc.IH [of level] by (simp add: Let_def nth_append zeroValuesLoop_length)
  next
    case False
    with Suc.prems have "level = Suc d" by simp
    then show ?thesis
      using Suc.IH [of d] by (simp add: Let_def nth_append zeroValuesLoop_length zeroValue_def)
  qed
qed

lemma zeroValues_index:
  "js_index (zeroValuesLoop H z0 d) level
     = (if level \<le> d then Some (zeroValue H z0 level) else None)"
  by (simp add: js_index_def zeroValuesLoop_length zeroValuesLoop_nth less_Suc_eq_le)

lemma getRoot_empty:
  "getRoot (newMerkleTree H z0 [] c p depthArg) tr
     = Some (zeroValue H z0 (case depthArg of None \<Rightarrow> depths p | Some d \<Rightarrow> d))"
  by (simp add: getRoot_def getNode_def newMerkleTree_def zeroValues_index Let_def)

lemmas merkle_eval =
  insertLeaves_def newMerkleTree_def writeTreeCache_def levelLoop.simps pairLoop.simps
  updateParent_def cacheGet_def cacheSet_def ensureLevel_def hashLeftRight_def getNode_def
  js_get_def js_set_def js_or_def zeroValues_index cacheEntries_def dbBatch_def Let_def
  getTreeLength_def countNamespace_def enumerate_eq_zip

subsection \<open>Claims about the Merkle tree\<close>

text \<open>
  C1. A tree of the default depth 16 on an empty database takes the leaf \<open>l0\<close> at index 0,
  and then the batch \<open>[l1, l2]\<close> at index 1, the tree's length. In the second call the pair
  loop of level 0 runs \<open>index = 1, 3\<close> (\<open>endIndex = 3\<close>); at \<open>index = 3\<close> the branch for an
  odd index hashes \<open>writeCache[tree][0][2]\<close> with \<open>writeCache[tree][0][3]\<close>, which is
  \<open>undefined\<close>: the right operand has no fallback to \<open>getNode\<close>. So the parent of \<open>l2\<close> is
  not \<open>Poseidon(l2, zeroValues[0])\<close>; in the model the call ends in the error and persists
  nothing of the batch.
\<close>

theorem insertLeaves_odd_start_even_batch:
  "(case insertLeaves hx H (newMerkleTree H z0 [] c erc20 None) 0 [l0] 0 of
      Inl e \<Rightarrow> False
    | Inr s1 \<Rightarrow> insertLeaves hx H s1 0 [l1, l2] 1 = Inl UndefinedOperand)"
  by (simp add: merkle_eval cong: sum.case_cong_weak option.case_cong_weak)

text \<open>
  C7. After one leaf is inserted into tree 0 of a tree of depth 16, \<open>getTreeLength\<close>
  served from the length cache that \<open>writeTreeCache\<close> filled returns 1. A new
  \<open>MerkleTree\<close> object on the same database has an empty length cache, and
  \<open>getTreeLength\<close> returns 17 there: \<open>countNamespace\<close> counts the keys under
  \<open>getTreeDBPrefix(tree)\<close>, which are the nodes of all 17 levels and not the leaves only.
\<close>

theorem getTreeLength_recount_counts_all_levels:
  "(case insertLeaves hx H (newMerkleTree H z0 [] c erc20 None) 0 [l0] 0 of
      Inl e \<Rightarrow> False
    | Inr s1 \<Rightarrow>
        fst (getTreeLength s1 0) = 1
        \<and> fst (getTreeLength (newMerkleTree H z0 (db s1) c erc20 None) 0) = 17)"
  by (simp add: merkle_eval cong: sum.case_cong_weak option.case_cong_weak)

text \<open>
  C9. The root of a newly constructed tree of depth 16 with nothing inserted is the
  16-fold self-hash of \<open>MERKLE_ZERO_VALUE\<close>, and in every state of the tree \<open>getNode\<close>
  returns \<open>zeroValues[level]\<close> when no node is persisted at the path.
\<close>

theorem getRoot_empty_tree:
  "getRoot (newMerkleTree H z0 [] c erc20 None) tr = Some (((\<lambda>x. H x x) ^^ 16) z0)
   \<and> (\<forall>(s :: 'a MerkleTree) level index.
        map_of (db s) (tr, level, index) = None
        \<longrightarrow> getNode s tr level index = js_index (zeroValues s) level)"
proof (intro conjI allI impI)
  have "getRoot (newMerkleTree H z0 [] c erc20 None) tr = Some (zeroValue H z0 16)"
    by (simp add: getRoot_empty)
  then show "getRoot (newMerkleTree H z0 [] c erc20 None) tr = Some (((\<lambda>x. H x x) ^^ 16) z0)"
    unfolding zeroValue_def .
next
  fix s :: "'a MerkleTree" and level index
  assume "map_of (db s) (tr, level, index) = None"
  then show "getNode s tr level index = js_index (zeroValues s) level"
    by (simp add: getNode_def)
qed

theorem getRoot_empty_tree_witness:
  "map_of (db (newMerkleTree (+) (1::nat) [] 1 erc20 None)) (0, 3, 5) = None
   \<and> getNode (newMerkleTree (+) (1::nat) [] 1 erc20 None) 0 3 5 = Some 8"
proof -
  have h: "map_of (db (newMerkleTree (+) (1::nat) [] 1 erc20 None)) (0, 3, 5) = None"
    by (simp add: newMerkleTree_def)
  have z: "js_index (zeroValues (newMerkleTree (+) (1::nat) [] 1 erc20 None)) 3 = Some 8"
    by (simp add: newMerkleTree_def zeroValues_index zeroValue_def numeral_3_eq_3)
  from getRoot_empty_tree [THEN conjunct2, rule_format, OF h] h z show ?thesis
    by simp
qed

section \<open>Wallet: balances (\<open>Wallet.balances\<close>)\<close>

text \<open>
  \<open>!txOutput.spendtxid\<close>: \<open>spendtxid\<close> is \<open>false\<close> or a string, and the empty string is
  falsy too.
\<close>

definition js_not_spendtxid :: "string option \<Rightarrow> bool" where
  "js_not_spendtxid st = (case st of None \<Rightarrow> True | Some t \<Rightarrow> t = [])"

text \<open>
  The \<open>forEach\<close> of \<open>balances\<close> over the list that \<open>this.TXOs(chainID)\<close> returns. The
  \<open>Balances\<close> object is a map from the key to the \<open>TreeBalance\<close>. The key is
  \<open>formatToByteLength(txOutput.note.token, 32, false)\<close>; \<open>formatToByteLength\<close> is imported
  from \<open>../utils/bytes\<close>, which is not among the sources, and is the parameter \<open>fmt\<close>.
  \<^verbatim>\<open>if (!balances[token]) balances[token] = { balance: BigInt(0), utxos: [] };
  if (!txOutput.spendtxid) {
    balances[token].utxos.push(txOutput);
    balances[token].balance += txOutput.note.value;
  }\<close>
\<close>

fun balancesLoop ::
  "(string \<Rightarrow> string) \<Rightarrow> (string \<rightharpoonup> TreeBalance) \<Rightarrow> TXO list \<Rightarrow> (string \<rightharpoonup> TreeBalance)" where
  "balancesLoop fmt balances [] = balances"
| "balancesLoop fmt balances (txOutput # rest) =
     (let key = fmt (token (note txOutput));
          b1 = (case balances key of
                  None \<Rightarrow> balances(key \<mapsto> \<lparr>balance = 0, utxos = []\<rparr>)
                | Some tb \<Rightarrow> balances);
          b2 = (if js_not_spendtxid (spendtxid txOutput)
                then (case b1 key of
                        None \<Rightarrow> b1
                      | Some tb \<Rightarrow>
                          b1(key \<mapsto> \<lparr>balance = balance tb + value (note txOutput),
                                       utxos = utxos tb @ [txOutput]\<rparr>))
                else b1)
      in balancesLoop fmt b2 rest)"

definition balances :: "(string \<Rightarrow> string) \<Rightarrow> TXO list \<Rightarrow> (string \<rightharpoonup> TreeBalance)" where
  "balances fmt TXOs = balancesLoop fmt Map.empty TXOs"

text \<open>The unspent TXOs of a key, in the order of the list, and the sum of their values.\<close>

definition unspentOf :: "(string \<Rightarrow> string) \<Rightarrow> string \<Rightarrow> TXO list \<Rightarrow> TXO list" where
  "unspentOf fmt key TXOs =
     filter (\<lambda>t. fmt (token (note t)) = key \<and> js_not_spendtxid (spendtxid t)) TXOs"

definition totalValue :: "TXO list \<Rightarrow> int" where
  "totalValue ts = sum_list (map (\<lambda>t. value (note t)) ts)"

lemma balancesLoop_lookup:
  "balancesLoop fmt b TXOs key =
     (case b key of
        None \<Rightarrow>
          if (\<exists>t \<in> set TXOs. fmt (token (note t)) = key)
          then Some \<lparr>balance = totalValue (unspentOf fmt key TXOs),
                     utxos = unspentOf fmt key TXOs\<rparr>
          else None
      | Some tb \<Rightarrow>
          Some \<lparr>balance = balance tb + totalValue (unspentOf fmt key TXOs),
                utxos = utxos tb @ unspentOf fmt key TXOs\<rparr>)"
proof (induction TXOs arbitrary: b)
  case Nil
  then show ?case
    by (simp add: unspentOf_def totalValue_def split: option.splits)
next
  case (Cons t ts)
  show ?case
    by (simp add: Cons.IH Let_def unspentOf_def totalValue_def split: option.splits)
qed

subsection \<open>Claim about the balances\<close>

text \<open>
  C8. The list of TXOs is the one \<open>TXOs(chainID)\<close> returns: \<open>spendtxid\<close> of each is
  \<open>false\<close> or the transaction id that \<open>getNullified\<close> gave, never the empty string. Then
  a key with no TXO has no entry, and the entry of any other key holds exactly the TXOs of
  that key whose \<open>spendtxid\<close> is \<open>false\<close>, in the order of the list, with the sum of their
  note values as the balance; a spent TXO is in no list and in no sum.
\<close>

theorem balances_unspent_sum:
  assumes "\<forall>t \<in> set TXOs. spendtxid t \<noteq> Some []"
  shows "balances fmt TXOs key =
     (if (\<exists>t \<in> set TXOs. fmt (token (note t)) = key)
      then Some \<lparr>balance = sum_list (map (\<lambda>t. value (note t))
                     (filter (\<lambda>t. fmt (token (note t)) = key \<and> spendtxid t = None) TXOs)),
                 utxos = filter (\<lambda>t. fmt (token (note t)) = key \<and> spendtxid t = None) TXOs\<rparr>
      else None)"
proof -
  have "filter (\<lambda>t. fmt (token (note t)) = key \<and> js_not_spendtxid (spendtxid t)) TXOs
        = filter (\<lambda>t. fmt (token (note t)) = key \<and> spendtxid t = None) TXOs"
    using assms by (intro filter_cong) (auto simp add: js_not_spendtxid_def split: option.splits)
  then show ?thesis
    by (simp add: balances_def balancesLoop_lookup unspentOf_def totalValue_def)
qed

theorem balances_unspent_sum_witness:
  "balances (\<lambda>t. t)
     [createMockTXO ''a'' 30, (createMockTXO ''b'' 40)\<lparr>spendtxid := Some ''0x01''\<rparr>,
      createMockTXO ''c'' 50] ''abc''
   = Some \<lparr>balance = 80, utxos = [createMockTXO ''a'' 30, createMockTXO ''c'' 50]\<rparr>"
proof -
  have h: "\<forall>t \<in> set [createMockTXO ''a'' 30,
             (createMockTXO ''b'' 40)\<lparr>spendtxid := Some ''0x01''\<rparr>,
             createMockTXO ''c'' 50]. spendtxid t \<noteq> Some []"
    by (simp add: createMockTXO_def)
  show ?thesis
    using balances_unspent_sum [OF h, of "\<lambda>t. t" "''abc''"]
    by (simp add: createMockTXO_def)
qed

section \<open>Note serialization and \<open>Wallet.scanLeaves\<close>\<close>

text \<open>
  \<open>BytesData\<close> as the two forms a key takes in these functions: a hex string, or a
  \<open>Uint8Array\<close>.
\<close>

datatype BytesData = HexString string | ByteArray "nat list"

record Ciphertext =
  iv :: string
  tag :: string
  data :: "string list"

text \<open>
  \<open>NoteSerialized\<close>: \<open>{npk, token, value, encryptedRandom}\<close>, all hex strings; \<open>token\<close> and
  \<open>value\<close> carry a suffix, as \<open>Note\<close> has fields of these names.
\<close>

record NoteSerialized =
  npk :: string
  token_ser :: string
  value_ser :: string
  encryptedRandom :: "string list"

text \<open>
  The functions of \<open>../utils\<close> (\<open>keysUtils\<close>, \<open>bytes\<close>, \<open>encryption\<close>) and of
  \<open>ethereum-cryptography\<close> that the note and the wallet call; none is among the sources, and
  they are the fields of a record of parameters.

  Modelled from the spec: the spec has AES-256-GCM
  \<open>encrypt([plaintextChunks], key) \<rightarrow> {iv, tag, data[]}\<close> and its inverse. The inverse throws
  on a ciphertext that does not authenticate under the key: \<open>None\<close>. The IV is a result of
  \<open>encrypt\<close> and no argument of it: what a call draws to make it is the first argument of
  \<open>aes_gcm_encrypt\<close> here; an implementation that draws nothing ignores the argument.
  \<open>getSharedKey\<close> is the ECDH key derivation, \<open>None\<close> when it throws.
\<close>

record Prims =
  poseidon :: "int list \<Rightarrow> int"
  nToHex :: "int \<Rightarrow> string"
  hexToBigInt :: "string \<Rightarrow> int"
  hexlify :: "string \<Rightarrow> bool \<Rightarrow> string"
  formatToByteLength :: "string \<Rightarrow> nat \<Rightarrow> bool \<Rightarrow> string"
  hexToBytes :: "string \<Rightarrow> nat list"
  getSharedKey :: "string \<Rightarrow> string option \<Rightarrow> string option"
  aes_gcm_decrypt :: "Ciphertext \<Rightarrow> BytesData \<Rightarrow> string list option"
  aes_gcm_encrypt :: "string \<Rightarrow> string list \<Rightarrow> BytesData \<Rightarrow> Ciphertext"

text \<open>The constructor of \<open>Note\<close>; \<open>BigInt(value)\<close> is the integer.\<close>

definition newNote :: "Prims \<Rightarrow> AddressData \<Rightarrow> string \<Rightarrow> int \<Rightarrow> string \<Rightarrow> Note" where
  "newNote P address random' value' token' =
     \<lparr>masterPublicKey = masterPublicKey address,
      viewingPublicKey = viewingPublicKey address,
      token = formatToByteLength P token' 20 False,
      random = formatToByteLength P random' 16 False,
      value = value'\<rparr>"

definition valueHex :: "Prims \<Rightarrow> Note \<Rightarrow> string" where
  "valueHex P n = formatToByteLength P (nToHex P (value n)) 16 False"

definition notePublicKey :: "Prims \<Rightarrow> Note \<Rightarrow> int" where
  "notePublicKey P n = poseidon P [masterPublicKey n, hexToBigInt P (random n)]"

text \<open>\<open>format(prefix)\<close>: the object of five formatted strings.\<close>

record FormattedNote =
  masterPublicKey_fmt :: string
  npk_fmt :: string
  token_fmt :: string
  value_fmt :: string
  random_fmt :: string

definition format :: "Prims \<Rightarrow> Note \<Rightarrow> bool \<Rightarrow> FormattedNote" where
  "format P n prefix =
     \<lparr>masterPublicKey_fmt = formatToByteLength P (nToHex P (masterPublicKey n)) 32 prefix,
      npk_fmt = formatToByteLength P (nToHex P (notePublicKey P n)) 32 prefix,
      token_fmt = formatToByteLength P (token n) 20 prefix,
      value_fmt = formatToByteLength P (valueHex P n) 16 prefix,
      random_fmt = formatToByteLength P (random n) 16 prefix\<rparr>"

text \<open>
  \<open>serialize(viewingPrivateKey, prefix)\<close>. \<open>draw\<close> is what the call of \<open>encrypt\<close> draws.
  \<open>encryptedRandom.data[0]\<close> of an empty \<open>data\<close> is \<open>undefined\<close>, and \<open>hexlify\<close> of it is
  taken to throw.
\<close>

definition serialize :: "Prims \<Rightarrow> string \<Rightarrow> Note \<Rightarrow> string \<Rightarrow> bool \<Rightarrow> error + NoteSerialized" where
  "serialize P draw n viewingPrivateKey prefix =
     (let f = format P n prefix;
          c = aes_gcm_encrypt P draw [random_fmt f] (HexString viewingPrivateKey);
          ivTag = hexlify P (iv c) True @ hexlify P (tag c) False
      in case js_index (data c) 0 of
           None \<Rightarrow> Inl TypeError
         | Some d0 \<Rightarrow>
             Inr \<lparr>npk = npk_fmt f, token_ser = token_fmt f, value_ser = value_fmt f,
                  encryptedRandom = map (\<lambda>v. hexlify P v prefix) [ivTag, hexlify P d0 True]\<rparr>)"

text \<open>
  \<open>Note.decrypt(encryptedNote, sharedKey)\<close>; \<open>None\<close> when the call throws (the caller has
  it in a \<open>try\<close>). \<open>substring(0, 32)\<close> and \<open>substring(32, 96)\<close> are \<open>take\<close> and \<open>drop\<close>;
  a missing chunk is \<open>undefined\<close>, and the call on it throws.
\<close>

definition decrypt :: "Prims \<Rightarrow> Ciphertext \<Rightarrow> nat list \<Rightarrow> Note option" where
  "decrypt P encryptedNote sharedKey =
     (case aes_gcm_decrypt P encryptedNote (ByteArray sharedKey) of
        None \<Rightarrow> None
      | Some chunks \<Rightarrow>
          (let decryptedValues = map (\<lambda>v. hexlify P v False) chunks in
           case js_index decryptedValues 0 of
             None \<Rightarrow> None
           | Some d0 \<Rightarrow>
               (case js_index decryptedValues 1 of
                  None \<Rightarrow> None
                | Some d1 \<Rightarrow>
                    (case js_index decryptedValues 2 of
                       None \<Rightarrow> None
                     | Some d2 \<Rightarrow>
                         Some (newNote P
                                 \<lparr>masterPublicKey = hexToBigInt P d0, viewingPublicKey = []\<rparr>
                                 (take 32 d2)
                                 (hexToBigInt P (take 64 (drop 32 d2)))
                                 d1)))))"

text \<open>\<open>Note.deserialize(noteData, viewingPrivateKey, recipient)\<close>, \<open>None\<close> when it throws.\<close>

definition deserialize :: "Prims \<Rightarrow> NoteSerialized \<Rightarrow> int \<Rightarrow> AddressData \<Rightarrow> Note option" where
  "deserialize P noteData viewingPrivateKey recipient =
     (let er = map (\<lambda>r. hexlify P r False) (encryptedRandom noteData) in
      case js_index er 0 of
        None \<Rightarrow> None
      | Some e0 \<Rightarrow>
          (case js_index er 1 of
             None \<Rightarrow> None
           | Some e1 \<Rightarrow>
               (case aes_gcm_decrypt P \<lparr>iv = take 32 e0, tag = drop 32 e0, data = [e1]\<rparr>
                       (HexString (nToHex P viewingPrivateKey)) of
                  None \<Rightarrow> None
                | Some decryptedRandom \<Rightarrow>
                    (case js_index decryptedRandom 0 of
                       None \<Rightarrow> None
                     | Some r0 \<Rightarrow>
                         Some (newNote P recipient (hexlify P r0 False)
                                 (hexToBigInt P (value_ser noteData))
                                 (hexlify P (token_ser noteData) False))))))"

text \<open>\<open>Note.getNullifier(nullifyingKey, leafIndex)\<close>\<close>

definition getNullifier :: "Prims \<Rightarrow> int \<Rightarrow> nat \<Rightarrow> int" where
  "getNullifier P nullifyingKey leafIndex = poseidon P [nullifyingKey, int leafIndex]"

text \<open>
  A commitment of the tree, as \<open>scanLeaves\<close> reads it: with a \<open>ciphertext\<close>
  (\<open>txid\<close>, \<open>ciphertext.ciphertext\<close>, \<open>ciphertext.ephemeralKeys\<close>), or with a preimage
  (\<open>txid\<close>, \<open>preimage.npk\<close>, \<open>preimage.token.tokenAddress\<close>, \<open>preimage.value\<close>,
  \<open>encryptedRandom\<close>).
\<close>

datatype Commitment =
  EncryptedCommitment string Ciphertext "string list"
  | GeneratedCommitment string string string string "string list"

text \<open>
  The record \<open>scanLeaves\<close> stores; \<open>spendtxid\<close> and \<open>txid\<close> carry a suffix, as \<open>TXO\<close> has
  fields of these names. \<open>msgpack.encode\<close> of the record is the stored value; it is a
  serialization that \<open>TXOs\<close> decodes again, and the store of the model holds the record.
\<close>

record StoredCommitment =
  spendtxid_stored :: "string option"
  txid_stored :: string
  nullifier :: string
  decrypted :: NoteSerialized

text \<open>
  The wallet: \<open>#viewingKeyPair.privateKey\<close>, \<open>addressKeys\<close>, and the part of the database
  under the wallet's prefix \<open>("wallet", id)\<close>, whose keys
  \<open>getWalletDBPrefix(chainID, tree, position)\<close> are the triples of the three numbers.
\<close>

record Wallet =
  privateKey :: int
  addressKeys :: AddressData
  walletDB :: "((nat \<times> nat \<times> nat) \<times> StoredCommitment) list"

definition getNullifyingKey :: "Prims \<Rightarrow> Wallet \<Rightarrow> int" where
  "getNullifyingKey P w = poseidon P [privateKey w]"

text \<open>
  The part of the loop body of \<open>scanLeaves\<close> that finds the note of a leaf: \<open>Inl\<close> when
  the iteration throws out of \<open>scanLeaves\<close>, \<open>Inr None\<close> when the leaf is not addressed to
  the wallet.
\<close>

definition noteOfLeaf :: "Prims \<Rightarrow> Wallet \<Rightarrow> Commitment \<Rightarrow> error + Note option" where
  "noteOfLeaf P w leaf =
     (let vpk = privateKey w in
      case leaf of
        EncryptedCommitment txid' ciphertext ephemeralKeys \<Rightarrow>
          (case getSharedKey P (nToHex P vpk) (js_index ephemeralKeys 0) of
             None \<Rightarrow> Inl SharedKeyError
           | Some sharedKey \<Rightarrow> Inr (decrypt P ciphertext (hexToBytes P sharedKey)))
      | GeneratedCommitment txid' npk' tokenAddress value' encryptedRandom' \<Rightarrow>
          Inr (deserialize P
                 \<lparr>npk = npk', token_ser = tokenAddress, value_ser = value',
                  encryptedRandom = encryptedRandom'\<rparr>
                 vpk (addressKeys w)))"

fun txidOfLeaf :: "Commitment \<Rightarrow> string" where
  "txidOfLeaf (EncryptedCommitment txid' ciphertext ephemeralKeys) = txid'"
| "txidOfLeaf (GeneratedCommitment txid' npk' tokenAddress value' encryptedRandom') = txid'"

text \<open>
  The \<open>for\<close> loop of \<open>scanLeaves\<close> over the positions of \<open>leaves\<close>, collecting
  \<open>writeBatch\<close>. A hole of the array (\<open>scan\<close> deletes the leaves it could not fetch) is
  \<open>undefined\<close>, and \<open>'ciphertext' in leaf\<close> throws on it. \<open>draws pos\<close> is what
  \<open>encrypt\<close> draws when the note of that position is serialized.
\<close>

fun scanLoop ::
  "Prims \<Rightarrow> Wallet \<Rightarrow> nat \<Rightarrow> nat \<Rightarrow> (nat \<Rightarrow> string) \<Rightarrow> nat \<Rightarrow> Commitment option list
     \<Rightarrow> ((nat \<times> nat \<times> nat) \<times> StoredCommitment) list
     \<Rightarrow> error + ((nat \<times> nat \<times> nat) \<times> StoredCommitment) list" where
  "scanLoop P w tr chain draws pos [] writeBatch = Inr writeBatch"
| "scanLoop P w tr chain draws pos (None # rest) writeBatch = Inl TypeError"
| "scanLoop P w tr chain draws pos (Some leaf # rest) writeBatch =
     (case noteOfLeaf P w leaf of
        Inl e \<Rightarrow> Inl e
      | Inr None \<Rightarrow> scanLoop P w tr chain draws (pos + 1) rest writeBatch
      | Inr (Some n) \<Rightarrow>
          (case serialize P (draws pos) n (nToHex P (privateKey w)) False of
             Inl e \<Rightarrow> Inl e
           | Inr ser \<Rightarrow>
               scanLoop P w tr chain draws (pos + 1) rest
                 (writeBatch @
                    [((chain, tr, pos),
                      \<lparr>spendtxid_stored = None,
                       txid_stored = hexlify P (txidOfLeaf leaf) False,
                       nullifier = nToHex P (getNullifier P (privateKey w) pos),
                       decrypted = ser\<rparr>)])))"

text \<open>
  \<open>scanLeaves(leaves, tree, chainID)\<close>: the batch is written, and the result is whether it
  has an entry.
\<close>

definition walletBatch ::
  "((nat \<times> nat \<times> nat) \<times> StoredCommitment) list \<Rightarrow> ((nat \<times> nat \<times> nat) \<times> StoredCommitment) list
     \<Rightarrow> ((nat \<times> nat \<times> nat) \<times> StoredCommitment) list" where
  "walletBatch d writeBatch = foldl (\<lambda>d' (k, v). AList.update k v d') d writeBatch"

definition scanLeaves ::
  "Prims \<Rightarrow> Wallet \<Rightarrow> (nat \<Rightarrow> string) \<Rightarrow> Commitment option list \<Rightarrow> nat \<Rightarrow> nat
     \<Rightarrow> error + bool \<times> Wallet" where
  "scanLeaves P w draws leaves tr chain =
     (case scanLoop P w tr chain draws 0 leaves [] of
        Inl e \<Rightarrow> Inl e
      | Inr writeBatch \<Rightarrow>
          Inr (length writeBatch > 0,
               w\<lparr>walletDB := walletBatch (walletDB w) writeBatch\<rparr>))"

subsection \<open>Comparing two scans\<close>

text \<open>
  Two stored records that agree on every field but \<open>encryptedRandom\<close>, and two entries
  of a write batch with the same key and such records.
\<close>

definition agreeButEncryptedRandom :: "StoredCommitment \<Rightarrow> StoredCommitment \<Rightarrow> bool" where
  "agreeButEncryptedRandom r1 r2 =
     (spendtxid_stored r1 = spendtxid_stored r2 \<and> txid_stored r1 = txid_stored r2
      \<and> nullifier r1 = nullifier r2
      \<and> npk (decrypted r1) = npk (decrypted r2)
      \<and> token_ser (decrypted r1) = token_ser (decrypted r2)
      \<and> value_ser (decrypted r1) = value_ser (decrypted r2))"

definition entriesAgree ::
  "((nat \<times> nat \<times> nat) \<times> StoredCommitment) \<Rightarrow> ((nat \<times> nat \<times> nat) \<times> StoredCommitment) \<Rightarrow> bool" where
  "entriesAgree e1 e2 = (fst e1 = fst e2 \<and> agreeButEncryptedRandom (snd e1) (snd e2))"

text \<open>
  An instance to run the scan on: stand-ins for the absent primitives (with \<open>encrypt\<close>
  returning what it draws as the IV, and \<open>decrypt\<close> accepting every ciphertext), a wallet
  with viewing private key 2, and a commitment with a preimage. \<open>exampleStored draw\<close> is
  the record the scan stores for the commitment at position 0.
\<close>

definition examplePrims :: Prims where
  "examplePrims =
     \<lparr>poseidon = (\<lambda>xs. sum_list xs + int (length xs)),
      nToHex = (\<lambda>n. replicate (nat n) (CHR ''f'')),
      hexToBigInt = (\<lambda>s. int (length s)),
      hexlify = (\<lambda>s prefix. if prefix then ''0x'' @ s else s),
      formatToByteLength = (\<lambda>s n prefix. s),
      hexToBytes = (\<lambda>s. map of_char s),
      getSharedKey = (\<lambda>k e. Some k),
      aes_gcm_decrypt = (\<lambda>c k. Some (data c)),
      aes_gcm_encrypt = (\<lambda>draw chunks k. \<lparr>iv = draw, tag = ''aa'', data = chunks\<rparr>)\<rparr>"

definition exampleWallet :: Wallet where
  "exampleWallet =
     \<lparr>privateKey = 2, addressKeys = \<lparr>masterPublicKey = 5, viewingPublicKey = []\<rparr>,
      walletDB = []\<rparr>"

definition exampleLeaf :: Commitment where
  "exampleLeaf = GeneratedCommitment ''0e'' ''0a'' ''0b'' ''0c'' [''0d'', ''0f'']"

definition exampleStored :: "string \<Rightarrow> StoredCommitment" where
  "exampleStored draw =
     \<lparr>spendtxid_stored = None, txid_stored = ''0e'', nullifier = ''ffff'',
      decrypted = \<lparr>npk = ''fffffffff'', token_ser = ''0b'', value_ser = ''ff'',
                   encryptedRandom = [''0x'' @ draw @ ''aa'', ''0x0f'']\<rparr>\<rparr>"

subsection \<open>What the scan writes\<close>

lemma scanLoop_nullifier:
  assumes "scanLoop P w tr chain draws pos leaves wb = Inr out"
      and "\<forall>(k, r) \<in> set wb. nullifier r = nToHex P (poseidon P [privateKey w, int (snd (snd k))])"
  shows "\<forall>(k, r) \<in> set out. nullifier r = nToHex P (poseidon P [privateKey w, int (snd (snd k))])"
  using assms
proof (induction leaves arbitrary: pos wb)
  case Nil
  then show ?case by simp
next
  case (Cons a leaves)
  show ?case
  proof (cases a)
    case None
    with Cons.prems show ?thesis by simp
  next
    case (Some leaf)
    show ?thesis
    proof (cases "noteOfLeaf P w leaf")
      case (Inl e)
      with Cons.prems Some show ?thesis by simp
    next
      case (Inr no)
      show ?thesis
      proof (cases no)
        case None
        with Cons.prems \<open>a = Some leaf\<close> Inr
        have "scanLoop P w tr chain draws (pos + 1) leaves wb = Inr out"
          by simp
        then show ?thesis
          using Cons.prems(2) by (rule Cons.IH)
      next
        case (Some n)
        from Cons.prems(1) \<open>a = Some leaf\<close> Inr Some obtain s1 where
          s1: "serialize P (draws pos) n (nToHex P (privateKey w)) False = Inr s1"
          by (cases "serialize P (draws pos) n (nToHex P (privateKey w)) False") simp_all
        let ?wb = "wb @ [((chain, tr, pos),
                   \<lparr>spendtxid_stored = None, txid_stored = hexlify P (txidOfLeaf leaf) False,
                    nullifier = nToHex P (getNullifier P (privateKey w) pos), decrypted = s1\<rparr>)]"
        from Cons.prems(1) \<open>a = Some leaf\<close> Inr Some s1
        have run: "scanLoop P w tr chain draws (pos + 1) leaves ?wb = Inr out"
          by simp
        have "\<forall>(k, r) \<in> set ?wb.
                nullifier r = nToHex P (poseidon P [privateKey w, int (snd (snd k))])"
          using Cons.prems(2) by (simp add: getNullifier_def)
        with run show ?thesis
          by (rule Cons.IH)
      qed
    qed
  qed
qed

lemma serialize_fields:
  assumes "serialize P d1 n k prefix = Inr s1" "serialize P d2 n k prefix = Inr s2"
  shows "npk s1 = npk s2 \<and> token_ser s1 = token_ser s2 \<and> value_ser s1 = value_ser s2"
  using assms by (auto simp add: serialize_def Let_def split: option.splits)

lemma scanLoop_agree:
  assumes "scanLoop P w tr chain draws1 pos leaves wb1 = Inr out1"
      and "scanLoop P w tr chain draws2 pos leaves wb2 = Inr out2"
      and "list_all2 entriesAgree wb1 wb2"
  shows "list_all2 entriesAgree out1 out2"
  using assms
proof (induction leaves arbitrary: pos wb1 wb2)
  case Nil
  then show ?case by simp
next
  case (Cons a leaves)
  show ?case
  proof (cases a)
    case None
    with Cons.prems show ?thesis by simp
  next
    case (Some leaf)
    show ?thesis
    proof (cases "noteOfLeaf P w leaf")
      case (Inl e)
      with Cons.prems Some show ?thesis by simp
    next
      case (Inr no)
      show ?thesis
      proof (cases no)
        case None
        with Cons.prems \<open>a = Some leaf\<close> Inr
        have "scanLoop P w tr chain draws1 (pos + 1) leaves wb1 = Inr out1"
          and "scanLoop P w tr chain draws2 (pos + 1) leaves wb2 = Inr out2"
          by simp_all
        then show ?thesis
          using Cons.prems(3) by (rule Cons.IH)
      next
        case (Some n)
        from Cons.prems(1) \<open>a = Some leaf\<close> Inr Some obtain s1 where
          s1: "serialize P (draws1 pos) n (nToHex P (privateKey w)) False = Inr s1"
          by (cases "serialize P (draws1 pos) n (nToHex P (privateKey w)) False") simp_all
        from Cons.prems(2) \<open>a = Some leaf\<close> Inr Some obtain s2 where
          s2: "serialize P (draws2 pos) n (nToHex P (privateKey w)) False = Inr s2"
          by (cases "serialize P (draws2 pos) n (nToHex P (privateKey w)) False") simp_all
        let ?e1 = "((chain, tr, pos),
                     \<lparr>spendtxid_stored = None, txid_stored = hexlify P (txidOfLeaf leaf) False,
                      nullifier = nToHex P (getNullifier P (privateKey w) pos), decrypted = s1\<rparr>)"
        let ?e2 = "((chain, tr, pos),
                     \<lparr>spendtxid_stored = None, txid_stored = hexlify P (txidOfLeaf leaf) False,
                      nullifier = nToHex P (getNullifier P (privateKey w) pos), decrypted = s2\<rparr>)"
        have ext: "list_all2 entriesAgree (wb1 @ [?e1]) (wb2 @ [?e2])"
        proof (rule list_all2_appendI)
          show "list_all2 entriesAgree wb1 wb2"
            by (rule Cons.prems(3))
        next
          show "list_all2 entriesAgree [?e1] [?e2]"
            using serialize_fields [OF s1 s2]
            by (simp add: entriesAgree_def agreeButEncryptedRandom_def)
        qed
        from Cons.prems(1,2) \<open>a = Some leaf\<close> Inr Some s1 s2
        have "scanLoop P w tr chain draws1 (pos + 1) leaves (wb1 @ [?e1]) = Inr out1"
          and "scanLoop P w tr chain draws2 (pos + 1) leaves (wb2 @ [?e2]) = Inr out2"
          by simp_all
        then show ?thesis
          using ext by (rule Cons.IH)
      qed
    qed
  qed
qed

lemma scanLoop_same_draws:
  assumes "\<forall>p. pos \<le> p \<and> p < pos + length leaves \<longrightarrow> draws1 p = draws2 p"
  shows "scanLoop P w tr chain draws1 pos leaves wb = scanLoop P w tr chain draws2 pos leaves wb"
  using assms
proof (induction leaves arbitrary: pos wb)
  case Nil
  then show ?case by simp
next
  case (Cons a leaves)
  have d: "draws1 pos = draws2 pos"
    using Cons.prems by simp
  have r: "\<And>wb'. scanLoop P w tr chain draws1 (Suc pos) leaves wb'
              = scanLoop P w tr chain draws2 (Suc pos) leaves wb'"
    using Cons.prems by (intro Cons.IH) simp
  show ?case
    by (cases a) (simp_all add: d r split: sum.splits option.splits)
qed

lemma scanLoop_walletDB:
  "scanLoop P (w\<lparr>walletDB := d\<rparr>) tr chain draws pos leaves wb
     = scanLoop P w tr chain draws pos leaves wb"
proof (induction leaves arbitrary: pos wb)
  case Nil
  then show ?case by simp
next
  case (Cons a leaves)
  have n: "noteOfLeaf P (w\<lparr>walletDB := d\<rparr>) leaf = noteOfLeaf P w leaf" for leaf
    by (cases leaf) (simp_all add: noteOfLeaf_def)
  show ?case
    by (cases a) (simp_all add: n Cons.IH cong: sum.case_cong option.case_cong)
qed

lemma map_of_walletBatch:
  "map_of (walletBatch d wb) = map_of d ++ map_of (rev wb)"
proof (induction wb arbitrary: d)
  case Nil
  then show ?case by (simp add: walletBatch_def)
next
  case (Cons e wb)
  obtain k v where e: "e = (k, v)" by (cases e)
  have "map_of (walletBatch (AList.update k v d) wb) = map_of (AList.update k v d) ++ map_of (rev wb)"
    by (rule Cons.IH)
  then show ?case
    unfolding e by (simp add: walletBatch_def update_conv' map_add_upd_left)
qed

lemma agreeButEncryptedRandom_refl: "agreeButEncryptedRandom r r"
  by (simp add: agreeButEncryptedRandom_def)

lemma map_of_entriesAgree:
  assumes "list_all2 entriesAgree xs ys"
  shows "rel_option agreeButEncryptedRandom (map_of xs k) (map_of ys k)"
  using assms
proof (induction rule: list_all2_induct)
  case Nil
  then show ?case by simp
next
  case (Cons x xs y ys)
  then show ?case
    by (cases x; cases y) (auto simp add: entriesAgree_def)
qed

lemmas scan_eval =
  scanLeaves_def noteOfLeaf_def deserialize_def serialize_def format_def newNote_def
  notePublicKey_def valueHex_def getNullifier_def getNullifyingKey_def js_index_def
  walletBatch_def examplePrims_def exampleWallet_def exampleLeaf_def exampleStored_def Let_def

lemma example_scanLoop:
  "scanLoop examplePrims (exampleWallet\<lparr>walletDB := d\<rparr>) 0 1 (\<lambda>p. draw) 0 [Some exampleLeaf] []
     = Inr [((1, 0, 0), exampleStored draw)]"
  by (simp add: scan_eval eval_nat_numeral)

subsection \<open>Claims about the scan\<close>

text \<open>
  C3. Every record that \<open>scanLeaves\<close> puts into its write batch, under the key of
  position \<open>p\<close>, has the nullifier \<open>nToHex(Poseidon(vpk, p))\<close> with \<open>vpk\<close> the viewing
  private key itself: \<open>scanLeaves\<close> passes \<open>vpk\<close> to \<open>Note.getNullifier\<close>, and not
  \<open>getNullifyingKey() = Poseidon(vpk)\<close>. In the instance the stored nullifier is that of
  \<open>Poseidon(2, 0)\<close> and differs from that of \<open>Poseidon(Poseidon(2), 0)\<close>.
\<close>

theorem scanLeaves_nullifier:
  assumes "scanLoop P w tr chain draws 0 leaves [] = Inr writeBatch"
      and "(k, r) \<in> set writeBatch"
  shows "nullifier r = nToHex P (poseidon P [privateKey w, int (snd (snd k))])"
proof -
  have "\<forall>(k, r) \<in> set writeBatch.
          nullifier r = nToHex P (poseidon P [privateKey w, int (snd (snd k))])"
    using assms(1) by (rule scanLoop_nullifier) simp
  with assms(2) show ?thesis
    by auto
qed

theorem scanLeaves_nullifier_witness:
  "nullifier (exampleStored ''01'') = nToHex examplePrims (getNullifier examplePrims 2 0)
   \<and> nullifier (exampleStored ''01'')
       \<noteq> nToHex examplePrims
            (getNullifier examplePrims (getNullifyingKey examplePrims exampleWallet) 0)"
proof -
  have h: "scanLoop examplePrims exampleWallet 0 1 (\<lambda>p. ''01'') 0 [Some exampleLeaf] []
             = Inr [((1, 0, 0), exampleStored ''01'')]"
    using example_scanLoop [of "walletDB exampleWallet" "''01''"] by simp
  have m: "((1, 0, 0), exampleStored ''01'') \<in> set [((1, 0, 0), exampleStored ''01'')]"
    by simp
  from scanLeaves_nullifier [OF h m] show ?thesis
    by (simp add: scan_eval eval_nat_numeral)
qed

text \<open>
  C6. Two runs of \<open>scanLeaves\<close> on the same leaves, the second on the wallet the first
  left: they find the same, the store has the same keys after both, and at every key the
  two records agree on \<open>spendtxid\<close>, \<open>txid\<close>, \<open>nullifier\<close> and on \<open>npk\<close>, \<open>token\<close>
  and \<open>value\<close> of the serialized note. \<open>encryptedRandom\<close> is encrypted anew in each run;
  when \<open>encrypt\<close> draws the same at every position, the store holds the same value at
  every key after the second run as after the first.
\<close>

theorem scanLeaves_rescan:
  assumes "scanLeaves P w draws1 leaves tr chain = Inr (found1, w1)"
      and "scanLeaves P w1 draws2 leaves tr chain = Inr (found2, w2)"
  shows "found2 = found1
     \<and> dom (map_of (walletDB w2)) = dom (map_of (walletDB w1))
     \<and> (\<forall>k. rel_option agreeButEncryptedRandom (map_of (walletDB w1) k) (map_of (walletDB w2) k))
     \<and> ((\<forall>p < length leaves. draws1 p = draws2 p)
          \<longrightarrow> map_of (walletDB w2) = map_of (walletDB w1))"
proof -
  from assms(1) obtain b1 where
    b1: "scanLoop P w tr chain draws1 0 leaves [] = Inr b1"
    and f1: "found1 = (length b1 > 0)"
    and w1: "w1 = w\<lparr>walletDB := walletBatch (walletDB w) b1\<rparr>"
    by (cases "scanLoop P w tr chain draws1 0 leaves []") (auto simp add: scanLeaves_def)
  from assms(2) obtain b2 where
    b2': "scanLoop P w1 tr chain draws2 0 leaves [] = Inr b2"
    and f2: "found2 = (length b2 > 0)"
    and w2: "w2 = w1\<lparr>walletDB := walletBatch (walletDB w1) b2\<rparr>"
    by (cases "scanLoop P w1 tr chain draws2 0 leaves []") (auto simp add: scanLeaves_def)
  from b2' have b2: "scanLoop P w tr chain draws2 0 leaves [] = Inr b2"
    by (simp add: w1 scanLoop_walletDB)
  have agree: "list_all2 entriesAgree b1 b2"
    using b1 b2 by (rule scanLoop_agree) simp
  then have len: "length b1 = length b2"
    by (rule list_all2_lengthD)
  let ?m = "map_of (walletDB w)"
  have m1: "map_of (walletDB w1) = ?m ++ map_of (rev b1)"
    by (simp add: w1 map_of_walletBatch)
  have m2: "map_of (walletDB w2) = (?m ++ map_of (rev b1)) ++ map_of (rev b2)"
    by (simp add: w2 w1 map_of_walletBatch)
  have rel: "rel_option agreeButEncryptedRandom (map_of (rev b1) k) (map_of (rev b2) k)" for k
    using agree by (intro map_of_entriesAgree) (simp add: list_all2_rev)
  have pointwise: "rel_option agreeButEncryptedRandom (map_of (walletDB w1) k) (map_of (walletDB w2) k)"
    for k
  proof (cases "map_of (rev b2) k")
    case None
    with rel [of k] have "map_of (rev b1) k = None"
      by (cases "map_of (rev b1) k") simp_all
    with None show ?thesis
      by (simp add: m1 m2 map_add_def option.rel_refl agreeButEncryptedRandom_refl)
  next
    case (Some r2)
    with rel [of k] obtain r1 where "map_of (rev b1) k = Some r1" "agreeButEncryptedRandom r1 r2"
      by (cases "map_of (rev b1) k") simp_all
    with Some show ?thesis
      by (simp add: m1 m2 map_add_def)
  qed
  have doms: "dom (map_of (walletDB w2)) = dom (map_of (walletDB w1))"
  proof (rule set_eqI)
    fix k
    show "k \<in> dom (map_of (walletDB w2)) \<longleftrightarrow> k \<in> dom (map_of (walletDB w1))"
      using pointwise [of k]
      by (cases "map_of (walletDB w1) k"; cases "map_of (walletDB w2) k") (simp_all add: domIff)
  qed
  have same: "map_of (walletDB w2) = map_of (walletDB w1)"
    if "\<forall>p < length leaves. draws1 p = draws2 p"
  proof -
    have "scanLoop P w tr chain draws1 0 leaves [] = scanLoop P w tr chain draws2 0 leaves []"
      using that by (intro scanLoop_same_draws) simp
    with b1 b2 have "b1 = b2" by simp
    then show ?thesis
      by (simp add: m1 m2 fun_eq_iff map_add_def split: option.splits)
  qed
  show ?thesis
    using f1 f2 len doms pointwise same by simp
qed

theorem scanLeaves_rescan_witness:
  "dom (map_of [((1::nat, 0::nat, 0::nat), exampleStored ''02'')])
     = dom (map_of [((1, 0, 0), exampleStored ''01'')])
   \<and> rel_option agreeButEncryptedRandom
       (map_of [((1::nat, 0::nat, 0::nat), exampleStored ''01'')] (1, 0, 0))
       (map_of [((1::nat, 0::nat, 0::nat), exampleStored ''02'')] (1, 0, 0))"
proof -
  have s1: "scanLeaves examplePrims exampleWallet (\<lambda>p. ''01'') [Some exampleLeaf] 0 1
              = Inr (True, exampleWallet\<lparr>walletDB := [((1, 0, 0), exampleStored ''01'')]\<rparr>)"
    using example_scanLoop [of "walletDB exampleWallet" "''01''"]
    by (simp add: scanLeaves_def walletBatch_def) (simp add: exampleWallet_def)
  have s2: "scanLeaves examplePrims (exampleWallet\<lparr>walletDB := [((1, 0, 0), exampleStored ''01'')]\<rparr>)
              (\<lambda>p. ''02'') [Some exampleLeaf] 0 1
              = Inr (True, exampleWallet\<lparr>walletDB := [((1, 0, 0), exampleStored ''02'')]\<rparr>)"
    using example_scanLoop [of "[((1, 0, 0), exampleStored ''01'')]" "''02''"]
    by (simp add: scanLeaves_def walletBatch_def)
  note t = scanLeaves_rescan [OF s1 s2]
  have d: "dom (map_of [((1::nat, 0::nat, 0::nat), exampleStored ''02'')])
             = dom (map_of [((1, 0, 0), exampleStored ''01'')])"
    using t [THEN conjunct2, THEN conjunct1] by simp
  have r: "rel_option agreeButEncryptedRandom
             (map_of [((1::nat, 0::nat, 0::nat), exampleStored ''01'')] (1, 0, 0))
             (map_of [((1::nat, 0::nat, 0::nat), exampleStored ''02'')] (1, 0, 0))"
    using t [THEN conjunct2, THEN conjunct2, THEN conjunct1, rule_format, of "(1, 0, 0)"]
    by simp
  from d r show ?thesis
    by (rule conjI)
qed

text \<open>
  C6, as stated, fails: in the instance \<open>encrypt\<close> draws \<open>01\<close> in the first run and
  \<open>02\<close> in the second, the IV is part of \<open>encryptedRandom\<close>, and the record stored at
  the key \<open>(1, 0, 0)\<close> after the second run is not the record of the first.
\<close>

theorem scanLeaves_rescan_counterexample:
  "(case scanLeaves examplePrims exampleWallet (\<lambda>p. ''01'') [Some exampleLeaf] 0 1 of
      Inl e \<Rightarrow> False
    | Inr (found1, w1) \<Rightarrow>
        (case scanLeaves examplePrims w1 (\<lambda>p. ''02'') [Some exampleLeaf] 0 1 of
           Inl e \<Rightarrow> False
         | Inr (found2, w2) \<Rightarrow>
             map_of (walletDB w2) (1, 0, 0) \<noteq> map_of (walletDB w1) (1, 0, 0)))"
proof -
  have s1: "scanLeaves examplePrims exampleWallet (\<lambda>p. ''01'') [Some exampleLeaf] 0 1
              = Inr (True, exampleWallet\<lparr>walletDB := [((1, 0, 0), exampleStored ''01'')]\<rparr>)"
    using example_scanLoop [of "walletDB exampleWallet" "''01''"]
    by (simp add: scanLeaves_def walletBatch_def) (simp add: exampleWallet_def)
  have s2: "scanLeaves examplePrims (exampleWallet\<lparr>walletDB := [((1, 0, 0), exampleStored ''01'')]\<rparr>)
              (\<lambda>p. ''02'') [Some exampleLeaf] 0 1
              = Inr (True, exampleWallet\<lparr>walletDB := [((1, 0, 0), exampleStored ''02'')]\<rparr>)"
    using example_scanLoop [of "[((1, 0, 0), exampleStored ''01'')]" "''02''"]
    by (simp add: scanLeaves_def walletBatch_def)
  have "exampleStored ''02'' \<noteq> exampleStored ''01''"
    by (simp add: exampleStored_def)
  then show ?thesis
    by (simp add: s1 [unfolded One_nat_def] s2 [unfolded One_nat_def])
qed

end
